theory Spec2Isabelle
  imports Main
begin

section \<open>Data model\<close>

text \<open>
  The one entity of \<^verbatim>\<open>frontend/src/App.js\<close>: a Program record as the backend sends it.
  The field \<^verbatim>\<open>id\<close> is called \<open>prog_id\<close> here (\<open>id\<close> is the identity function of HOL),
  and the other fields carry the same prefix. JavaScript strings are modelled as
  \<open>string\<close>, one \<open>char\<close> per code unit below 256.
\<close>

record program =
  prog_id :: string
  prog_name :: string
  prog_title :: string
  prog_description :: string
  prog_created_at :: string

subsection \<open>The application shell: network, toaster, timers, router\<close>

text \<open>The body of the selection request, lines 40 to 44.\<close>

record select_body =
  program_id :: string
  program_name :: string
  user_session :: string

datatype request = Get string | Post string select_body

datatype toast = ToastSuccess string | ToastError string

text \<open>
  Every effect of the two screens goes into the shell: the requests handed to axios in
  order, the toasts shown in order, the callbacks waiting in \<^verbatim>\<open>setTimeout\<close> (delay in
  milliseconds and the path the callback navigates to) and the router's location:
  \<open>location\<close> is its path name, on which the routes of lines 324 and 325 are matched,
  \<open>location_search\<close> and \<open>location_hash\<close> are its search and its hash.
\<close>

record shell =
  requests :: "request list"
  toasts :: "toast list"
  timers :: "(nat \<times> string) list"
  location :: string
  location_search :: string
  location_hash :: string

text \<open>An awaited axios promise either fulfils with the response data or rejects.\<close>

datatype 'a settled = Fulfilled 'a | Rejected

text \<open>
  Line 12: \<^verbatim>\<open>const API = `${BACKEND_URL}/api`\<close>. The backend URL comes from the build
  environment and is a parameter here.
\<close>

definition API :: "string \<Rightarrow> string" where
  "API BACKEND_URL = BACKEND_URL @ ''/api''"

subsection \<open>Numbers and strings of JavaScript\<close>

text \<open>
  The numbers that occur are integer valued doubles, the two infinities and NaN.
  \<open>Num n\<close> is the double whose value is exactly the integer \<open>n\<close>.
\<close>

datatype jsnum = NaN | PosInf | NegInf | Num int

fun bit_length :: "nat \<Rightarrow> nat" where
  "bit_length n = (if n = 0 then 0 else Suc (bit_length (n div 2)))"

declare bit_length.simps [simp del]

text \<open>
  The double nearest to an integer, ties to the even significand (53 bits), overflowing
  to an infinity from \<open>2 ^ 1024\<close> on.
\<close>

definition to_double :: "int \<Rightarrow> jsnum" where
  "to_double n =
     (let m = nat \<bar>n\<bar> in
      if m < 2 ^ 53 then Num n
      else
        let e = bit_length m - 53;
            q = m div 2 ^ e;
            r = m mod 2 ^ e;
            h = 2 ^ (e - 1);
            q' = (if h < r \<or> (r = h \<and> odd q) then q + 1 else q);
            v = q' * 2 ^ e
        in if 2 ^ 1024 \<le> v then (if n < 0 then NegInf else PosInf)
           else Num (sgn n * int v))"

text \<open>\<^verbatim>\<open>x - 1\<close>\<close>

fun js_minus_one :: "jsnum \<Rightarrow> jsnum" where
  "js_minus_one (Num n) = to_double (n - 1)"
| "js_minus_one x = x"

text \<open>
  \<^verbatim>\<open>x % d\<close> for a positive integer \<open>d\<close>: the remainder has the sign of the dividend
  and is exact; an infinite or NaN dividend gives NaN. (The double \<open>-0\<close> is \<open>Num 0\<close>:
  as a property key both are \<^verbatim>\<open>"0"\<close>.)
\<close>

fun js_rem :: "jsnum \<Rightarrow> nat \<Rightarrow> jsnum" where
  "js_rem (Num a) d = Num (sgn a * (\<bar>a\<bar> mod int d))"
| "js_rem x d = NaN"

text \<open>
  \<^verbatim>\<open>xs[k]\<close> on an array: the element when \<open>k\<close> is an index of the array,
  \<^verbatim>\<open>undefined\<close> (\<open>None\<close>) for every other key.
\<close>

fun js_get :: "'a list \<Rightarrow> jsnum \<Rightarrow> 'a option" where
  "js_get xs (Num k) = (if 0 \<le> k \<and> k < int (length xs) then Some (xs ! nat k) else None)"
| "js_get xs x = None"

text \<open>\<^verbatim>\<open>xs.findIndex(f)\<close>: the first index whose element satisfies \<open>f\<close>, or \<open>-1\<close>.\<close>

fun findIndex :: "('a \<Rightarrow> bool) \<Rightarrow> 'a list \<Rightarrow> int" where
  "findIndex f [] = - 1"
| "findIndex f (x # xs) =
     (if f x then 0 else (let r = findIndex f xs in if r < 0 then - 1 else r + 1))"

text \<open>
  Decimal rendering of an integer, as a template literal renders \<^verbatim>\<open>Date.now()\<close>: an
  integer of milliseconds, far below the \<open>10 ^ 21\<close> from which a number prints with an
  exponent.
\<close>

definition digit_char :: "nat \<Rightarrow> char" where
  "digit_char d = ''0123456789'' ! d"

fun show_nat :: "nat \<Rightarrow> string" where
  "show_nat n = (if n < 10 then [digit_char n] else show_nat (n div 10) @ [digit_char (n mod 10)])"

declare show_nat.simps [simp del]

definition show_int :: "int \<Rightarrow> string" where
  "show_int i = (if i < 0 then CHR ''-'' # show_nat (nat (- i)) else show_nat (nat i))"

text \<open>
  \<^verbatim>\<open>s.replace(pat, rep)\<close> with a string pattern: the first occurrence of \<open>pat\<close>
  anywhere in \<open>s\<close> is replaced, or nothing when there is none.
\<close>

fun is_prefix :: "string \<Rightarrow> string \<Rightarrow> bool" where
  "is_prefix [] s = True"
| "is_prefix (p # ps) [] = False"
| "is_prefix (p # ps) (c # cs) = (p = c \<and> is_prefix ps cs)"

fun replace_first :: "string \<Rightarrow> string \<Rightarrow> string \<Rightarrow> string" where
  "replace_first pat rep [] = (if pat = [] then rep else [])"
| "replace_first pat rep (c # cs) =
     (if is_prefix pat (c # cs) then rep @ drop (length pat) (c # cs)
      else c # replace_first pat rep cs)"

text \<open>
  \<^verbatim>\<open>parseInt(s)\<close> with no radix: leading white space is skipped, then an optional
  sign, then \<^verbatim>\<open>0x\<close> or \<^verbatim>\<open>0X\<close> selects radix 16 (otherwise 10); the longest run of
  digits of the radix is read, and no digit at all gives NaN. The value is the nearest
  double.
\<close>

definition is_white_space :: "char \<Rightarrow> bool" where
  "is_white_space c = (of_char c \<in> {9, 10, 11, 12, 13, 32, 160 :: nat})"

definition digit_value :: "char \<Rightarrow> nat option" where
  "digit_value c =
     (let k = (of_char c :: nat) in
      if 48 \<le> k \<and> k \<le> 57 then Some (k - 48)
      else if 97 \<le> k \<and> k \<le> 122 then Some (k - 87)
      else if 65 \<le> k \<and> k \<le> 90 then Some (k - 55)
      else None)"

definition is_digit :: "nat \<Rightarrow> char \<Rightarrow> bool" where
  "is_digit radix c = (case digit_value c of None \<Rightarrow> False | Some d \<Rightarrow> d < radix)"

definition digits_value :: "nat \<Rightarrow> string \<Rightarrow> nat" where
  "digits_value radix ds = foldl (\<lambda>acc c. acc * radix + the (digit_value c)) 0 ds"

definition parseInt :: "string \<Rightarrow> jsnum" where
  "parseInt s =
     (let s1 = dropWhile is_white_space s;
          neg = (case s1 of c # _ \<Rightarrow> c = CHR ''-'' | [] \<Rightarrow> False);
          s2 = (case s1 of c # cs \<Rightarrow> (if c = CHR ''-'' \<or> c = CHR ''+'' then cs else s1) | [] \<Rightarrow> s1);
          hex = (is_prefix ''0x'' s2 \<or> is_prefix ''0X'' s2);
          radix = (if hex then 16 else 10);
          s3 = (if hex then drop 2 s2 else s2);
          ds = takeWhile (is_digit radix) s3
      in if ds = [] then NaN
         else to_double ((if neg then - 1 else 1) * int (digits_value radix ds)))"

section \<open>The router and the address bar\<close>

text \<open>
  \<^verbatim>\<open>navigate(target)\<close> of a \<^verbatim>\<open>BrowserRouter\<close> with a string target that starts with
  \<^verbatim>\<open>/\<close>, as both targets of the source do (lines 50, 216 and 251): the router splits
  the target into path name, search and hash and puts them together again, hands the
  result to \<^verbatim>\<open>history.pushState\<close>, and takes its new location from
  \<^verbatim>\<open>window.location\<close>, that is, from the address as the browser's URL parser holds
  it.
\<close>

text \<open>
  The router's part: the hash starts at the first \<^verbatim>\<open>#\<close>, the search at the first
  \<^verbatim>\<open>?\<close> before it; a search or hash of one character is dropped.
\<close>

definition parsePath :: "string \<Rightarrow> string \<times> string \<times> string" where
  "parsePath path =
     (let hash = dropWhile (\<lambda>c. c \<noteq> CHR ''#'') path;
          path1 = takeWhile (\<lambda>c. c \<noteq> CHR ''#'') path;
          search = dropWhile (\<lambda>c. c \<noteq> CHR ''?'') path1;
          pathname = takeWhile (\<lambda>c. c \<noteq> CHR ''?'') path1
      in (pathname, search, hash))"

fun createPath :: "string \<times> string \<times> string \<Rightarrow> string" where
  "createPath (pathname, search, hash) =
     pathname @ (if search = [] \<or> search = ''?'' then [] else search)
              @ (if hash = [] \<or> hash = ''#'' then [] else hash)"

text \<open>
  The browser's part, after the URL Standard. Percent-encoding writes a code unit as
  its UTF-8 bytes, each as \<^verbatim>\<open>%\<close> and two upper-case hexadecimal digits.
\<close>

definition hex_char :: "nat \<Rightarrow> char" where
  "hex_char d = ''0123456789ABCDEF'' ! d"

definition percent_byte :: "nat \<Rightarrow> string" where
  "percent_byte b = [CHR ''%'', hex_char (b div 16), hex_char (b mod 16)]"

definition utf8_percent_encode :: "char \<Rightarrow> string" where
  "utf8_percent_encode c =
     (let k = (of_char c :: nat) in
      if k < 128 then percent_byte k
      else percent_byte (192 + k div 64) @ percent_byte (128 + k mod 64))"

text \<open>
  The percent-encode sets of the standard: C0 controls and everything above \<^verbatim>\<open>~\<close>;
  for a fragment also space, double quote, \<^verbatim>\<open><\<close>, \<^verbatim>\<open>>\<close> and back quote; for a query
  space, double quote, \<^verbatim>\<open>#\<close>, \<^verbatim>\<open><\<close>, \<^verbatim>\<open>>\<close> and (in an http URL) the single quote;
  for a path the query's set (without the single quote) and \<^verbatim>\<open>?\<close>, \<^verbatim>\<open>^\<close>, back
  quote, \<^verbatim>\<open>{\<close> and \<^verbatim>\<open>}\<close>.
\<close>

definition c0_control_set :: "char \<Rightarrow> bool" where
  "c0_control_set c = ((of_char c :: nat) \<le> 31 \<or> 126 < (of_char c :: nat))"

definition fragment_set :: "char \<Rightarrow> bool" where
  "fragment_set c = (c0_control_set c \<or> (of_char c :: nat) \<in> {32, 34, 60, 62, 96})"

definition query_set :: "char \<Rightarrow> bool" where
  "query_set c = (c0_control_set c \<or> (of_char c :: nat) \<in> {32, 34, 35, 60, 62})"

definition special_query_set :: "char \<Rightarrow> bool" where
  "special_query_set c = (query_set c \<or> (of_char c :: nat) = 39)"

definition path_set :: "char \<Rightarrow> bool" where
  "path_set c = (query_set c \<or> (of_char c :: nat) \<in> {63, 94, 96, 123, 125})"

definition percent_encode :: "(char \<Rightarrow> bool) \<Rightarrow> string \<Rightarrow> string" where
  "percent_encode encode_set s =
     concat (map (\<lambda>c. if encode_set c then utf8_percent_encode c else [c]) s)"

text \<open>
  The parser first drops C0 controls and spaces at both ends of its input and every
  tab and newline inside it.
\<close>

definition c0_control_or_space :: "char \<Rightarrow> bool" where
  "c0_control_or_space c = ((of_char c :: nat) \<le> 32)"

definition tab_or_newline :: "char \<Rightarrow> bool" where
  "tab_or_newline c = ((of_char c :: nat) \<in> {9, 10, 13})"

definition url_input :: "string \<Rightarrow> string" where
  "url_input u =
     filter (\<lambda>c. \<not> tab_or_newline c)
       (rev (dropWhile c0_control_or_space (rev (dropWhile c0_control_or_space u))))"

text \<open>
  The path state of the parser. A segment ends at \<^verbatim>\<open>/\<close>, at a backslash (which an
  http URL treats as \<^verbatim>\<open>/\<close>) and at the end of the path. A double-dot segment removes
  the last segment collected so far, a single-dot segment is skipped, every other
  segment is collected; a dot segment at the end of the path leaves an empty segment.
\<close>

definition is_single_dot :: "string \<Rightarrow> bool" where
  "is_single_dot buf = (buf \<in> set [''.'', ''%2e'', ''%2E''])"

definition is_double_dot :: "string \<Rightarrow> bool" where
  "is_double_dot buf =
     (buf \<in> set [''..'', ''.%2e'', ''.%2E'', ''%2e.'', ''%2E.'',
                  ''%2e%2e'', ''%2e%2E'', ''%2E%2e'', ''%2E%2E''])"

definition end_segment :: "bool \<Rightarrow> string list \<Rightarrow> string \<Rightarrow> string list" where
  "end_segment at_slash segs buf =
     (if is_double_dot buf then (if at_slash then butlast segs else butlast segs @ [[]])
      else if is_single_dot buf then (if at_slash then segs else segs @ [[]])
      else segs @ [buf])"

definition path_separator :: "char \<Rightarrow> bool" where
  "path_separator c = (c = CHR ''/'' \<or> c = CHR 0x5C)"

fun path_segments :: "string list \<Rightarrow> string \<Rightarrow> string \<Rightarrow> string list" where
  "path_segments segs buf [] = end_segment False segs buf"
| "path_segments segs buf (c # cs) =
     (if path_separator c then path_segments (end_segment True segs buf) [] cs
      else path_segments segs (buf @ (if path_set c then utf8_percent_encode c else [c])) cs)"

text \<open>
  The address of a target that starts with \<^verbatim>\<open>/\<close>, as \<^verbatim>\<open>window.location\<close> gives it
  back: the path name, the search (\<^verbatim>\<open>?\<close> and the query, or nothing when the query is
  empty) and the hash (\<^verbatim>\<open>#\<close> and the fragment, or nothing when the fragment is empty).
\<close>

definition browser_location :: "string \<Rightarrow> string \<times> string \<times> string" where
  "browser_location u =
     (let i = url_input u;
          fragment = drop 1 (dropWhile (\<lambda>c. c \<noteq> CHR ''#'') i);
          i1 = takeWhile (\<lambda>c. c \<noteq> CHR ''#'') i;
          query = drop 1 (dropWhile (\<lambda>c. c \<noteq> CHR ''?'') i1);
          path = takeWhile (\<lambda>c. c \<noteq> CHR ''?'') i1;
          segs = path_segments [] [] (drop 1 path);
          pathname = concat (map (\<lambda>seg. CHR ''/'' # seg) segs);
          q = percent_encode special_query_set query;
          f = percent_encode fragment_set fragment
      in (pathname, if q = [] then [] else CHR ''?'' # q, if f = [] then [] else CHR ''#'' # f))"

definition navigate :: "string \<Rightarrow> ('a::type) shell_scheme \<Rightarrow> 'a shell_scheme" where
  "navigate target s =
     (case browser_location (createPath (parsePath target)) of
        (pathname, search, hash) \<Rightarrow>
          s\<lparr>location := pathname, location_search := search, location_hash := hash\<rparr>)"


text \<open>
  The segment under which the address holds a route parameter: the characters the
  browser keeps percent-encoded in a path, the separators, \<^verbatim>\<open>#\<close> and \<^verbatim>\<open>%\<close> are
  percent-encoded, every other character stands for itself.
\<close>

definition segment_of_param :: "string \<Rightarrow> string" where
  "segment_of_param pid =
     percent_encode (\<lambda>c. path_set c \<or> path_separator c \<or> c = CHR ''#'' \<or> c = CHR ''%'') pid"

section \<open>The palette\<close>

text \<open>The array \<^verbatim>\<open>gradients\<close>, written out twice in the source (lines 89 and 226).\<close>

definition gradients :: "string list" where
  "gradients =
     [''from-emerald-400 to-teal-500'',
      ''from-teal-400 to-cyan-500'',
      ''from-cyan-400 to-blue-500'',
      ''from-blue-400 to-indigo-500'',
      ''from-indigo-400 to-violet-500'',
      ''from-violet-400 to-purple-500'',
      ''from-purple-400 to-pink-500'',
      ''from-pink-400 to-rose-500'',
      ''from-rose-400 to-orange-500'',
      ''from-orange-400 to-amber-500'',
      ''from-amber-400 to-yellow-500'',
      ''from-yellow-400 to-lime-500'',
      ''from-lime-400 to-green-500'',
      ''from-green-400 to-emerald-500'',
      ''from-red-400 to-pink-500'']"

section \<open>ProgramSelection\<close>

text \<open>
  The three \<^verbatim>\<open>useState\<close> cells of the component (lines 16 to 18), on top of the
  shell. \<open>pending\<close> is the bookkeeping of the event loop: the calls of
  \<^verbatim>\<open>handleProgramSelect\<close> suspended at their \<^verbatim>\<open>await\<close>, each with the \<open>program\<close>
  its closure holds.
\<close>

record selection_state = shell +
  programs :: "program list"
  selectedProgram :: "program option"
  loading :: bool
  pending :: "program list"

text \<open>
  Mounting at route \<^verbatim>\<open>/\<close>: the initial cells, and the effect of line 21 runs
  \<^verbatim>\<open>fetchPrograms\<close> up to its \<^verbatim>\<open>await\<close>, which sends the list request.
\<close>

definition ProgramSelection_mount :: "string \<Rightarrow> selection_state" where
  "ProgramSelection_mount BACKEND_URL =
     \<lparr>requests = [Get (API BACKEND_URL @ ''/programs'')], toasts = [], timers = [],
      location = ''/'', location_search = [], location_hash = [],
      programs = [], selectedProgram = None, loading = True, pending = []\<rparr>"

text \<open>\<^verbatim>\<open>fetchPrograms\<close> after its \<^verbatim>\<open>await\<close> (lines 28 to 33).\<close>

fun fetchPrograms_resume :: "program list settled \<Rightarrow> selection_state \<Rightarrow> selection_state" where
  "fetchPrograms_resume (Fulfilled data) s = s\<lparr>programs := data, loading := False\<rparr>"
| "fetchPrograms_resume Rejected s =
     s\<lparr>toasts := toasts s @ [ToastError ''Failed to load programs''], loading := False\<rparr>"

text \<open>
  \<^verbatim>\<open>handleProgramSelect(program)\<close> up to its \<^verbatim>\<open>await\<close> (lines 37 to 44); \<open>now\<close> is
  what \<^verbatim>\<open>Date.now()\<close> returns.
\<close>

definition handleProgramSelect_call ::
    "string \<Rightarrow> int \<Rightarrow> program \<Rightarrow> selection_state \<Rightarrow> selection_state" where
  "handleProgramSelect_call BACKEND_URL now program s =
     s\<lparr>selectedProgram := Some program,
       requests := requests s @
         [Post (API BACKEND_URL @ ''/select-program'')
            \<lparr>program_id = prog_id program,
             program_name = prog_name program,
             user_session = ''session_'' @ show_int now\<rparr>],
       pending := pending s @ [program]\<rparr>"

text \<open>
  \<^verbatim>\<open>handleProgramSelect(program)\<close> after its \<^verbatim>\<open>await\<close>: lines 46 to 51 when the
  request fulfilled, the \<^verbatim>\<open>catch\<close> of lines 53 and 54 when it rejected.
\<close>

fun handleProgramSelect_resume :: "program \<Rightarrow> unit settled \<Rightarrow> selection_state \<Rightarrow> selection_state" where
  "handleProgramSelect_resume program (Fulfilled _) s =
     s\<lparr>toasts := toasts s @ [ToastSuccess (''Selected '' @ prog_name program @ '' successfully!'')],
       timers := timers s @ [(1000, ''/program/'' @ prog_id program)]\<rparr>"
| "handleProgramSelect_resume program Rejected s =
     s\<lparr>toasts := toasts s @ [ToastError ''Failed to select program''],
       selectedProgram := None\<rparr>"

text \<open>
  The \<open>k\<close>-th suspended call is resumed with the outcome of its request, and the
  \<open>k\<close>-th waiting timer runs its callback, \<^verbatim>\<open>navigate(path)\<close> (line 50), which
  leaves the router at the address the browser makes of \<open>path\<close>.
\<close>

definition remove_nth :: "nat \<Rightarrow> 'a list \<Rightarrow> 'a list" where
  "remove_nth k xs = take k xs @ drop (Suc k) xs"

definition post_settles :: "nat \<Rightarrow> unit settled \<Rightarrow> selection_state \<Rightarrow> selection_state" where
  "post_settles k r s =
     (if k < length (pending s)
      then handleProgramSelect_resume (pending s ! k) r (s\<lparr>pending := remove_nth k (pending s)\<rparr>)
      else s)"

definition timer_fires :: "nat \<Rightarrow> ('a::type) shell_scheme \<Rightarrow> 'a shell_scheme" where
  "timer_fires k s =
     (if k < length (timers s)
      then (navigate (snd (timers s ! k)) s)\<lparr>timers := remove_nth k (timers s)\<rparr>
      else s)"

subsection \<open>Rendering\<close>

text \<open>
  What one card of the grid shows (lines 111 to 162): its key, the gradient class, the
  ring and check mark of a selected card, the texts, whether the inner button is
  disabled, and the program its \<^verbatim>\<open>onClick\<close> passes to \<^verbatim>\<open>handleProgramSelect\<close>.
  \<open>None\<close> as gradient class is \<^verbatim>\<open>undefined\<close>.
\<close>

record card =
  card_key :: string
  gradientClass :: "string option"
  isSelected :: bool
  card_name :: string
  card_badge :: string
  card_description :: string
  button_disabled :: bool
  onClick :: program

datatype selection_view = LoadingPrograms | Grid "card list"

text \<open>
  The callback of \<^verbatim>\<open>programs.map\<close> (lines 87 to 164).
  \<^verbatim>\<open>selectedProgram?.id === program.id\<close> is false when nothing is selected.
\<close>

definition render_card :: "program list \<Rightarrow> program option \<Rightarrow> program \<Rightarrow> card" where
  "render_card progs sel program =
     (let isSel = (case sel of None \<Rightarrow> False | Some q \<Rightarrow> prog_id q = prog_id program);
          programIndex = Num (findIndex (\<lambda>p. prog_id p = prog_id program) progs);
          gradientClass = js_get gradients (js_rem programIndex (length gradients))
      in \<lparr>card_key = prog_id program,
          gradientClass = gradientClass,
          isSelected = isSel,
          card_name = prog_name program,
          card_badge = prog_title program,
          card_description = prog_description program,
          button_disabled = isSel,
          onClick = program\<rparr>)"

definition ProgramSelection_render :: "selection_state \<Rightarrow> selection_view" where
  "ProgramSelection_render s =
     (if loading s then LoadingPrograms
      else Grid (map (render_card (programs s) (selectedProgram s)) (programs s)))"

text \<open>
  A click on the \<open>i\<close>-th card of the grid at time \<open>now\<close>. The handler sits on the card
  and does not look at \<open>isSelected\<close>; only the inner button is disabled.
\<close>

definition click_card :: "string \<Rightarrow> int \<Rightarrow> nat \<Rightarrow> selection_state \<Rightarrow> selection_state" where
  "click_card BACKEND_URL now i s =
     (case ProgramSelection_render s of
        LoadingPrograms \<Rightarrow> s
      | Grid cards \<Rightarrow>
          if i < length cards then handleProgramSelect_call BACKEND_URL now (onClick (cards ! i)) s
          else s)"

text \<open>
  The keys of the cards that the grid shows as selected (ring, check mark, disabled
  button), in the order of the grid.
\<close>

definition selected_keys :: "selection_state \<Rightarrow> string list" where
  "selected_keys s =
     (case ProgramSelection_render s of
        LoadingPrograms \<Rightarrow> []
      | Grid cards \<Rightarrow> map card_key (filter isSelected cards))"

text \<open>
  The events of the mounted screen: the list request settles (once, while \<open>loading\<close>
  is still set), a card is clicked at some time, the request of a suspended call
  settles, a timer fires. The reachable states are the runs of events from the mount.
\<close>

datatype selection_event =
  ProgramsSettle "program list settled"
| CardClicked int nat
| SelectSettles nat "unit settled"
| TimerFires nat

fun selection_step :: "string \<Rightarrow> selection_state \<Rightarrow> selection_event \<Rightarrow> selection_state" where
  "selection_step BACKEND_URL s (ProgramsSettle r) = (if loading s then fetchPrograms_resume r s else s)"
| "selection_step BACKEND_URL s (CardClicked now i) = click_card BACKEND_URL now i s"
| "selection_step BACKEND_URL s (SelectSettles k r) = post_settles k r s"
| "selection_step BACKEND_URL s (TimerFires k) = timer_fires k s"

definition selection_run :: "string \<Rightarrow> selection_event list \<Rightarrow> selection_state" where
  "selection_run BACKEND_URL evs =
     foldl (selection_step BACKEND_URL) (ProgramSelection_mount BACKEND_URL) evs"

section \<open>ProgramDetails\<close>

text \<open>
  The route parameter and the two \<^verbatim>\<open>useState\<close> cells of lines 180 to 182. The cell
  \<^verbatim>\<open>loading\<close> is called \<open>loading_details\<close> here, apart from the one of the grid
  screen.
\<close>

record details_state = shell +
  programId :: string
  program :: "program option"
  loading_details :: bool

text \<open>
  Mounting at \<^verbatim>\<open>/program/:programId\<close> with the route parameter \<open>pid\<close>, as
  \<^verbatim>\<open>useParams\<close> gives it: the effect of line 185 runs \<^verbatim>\<open>fetchProgram\<close> up to its
  \<^verbatim>\<open>await\<close>.
\<close>

definition ProgramDetails_mount :: "string \<Rightarrow> string \<Rightarrow> details_state" where
  "ProgramDetails_mount BACKEND_URL pid =
     \<lparr>requests = [Get (API BACKEND_URL @ ''/programs/'' @ pid)], toasts = [], timers = [],
      location = ''/program/'' @ segment_of_param pid, location_search = [], location_hash = [],
      programId = pid, program = None, loading_details = True\<rparr>"

text \<open>
  The router moves from one detail route to another: the same component instance stays
  mounted with its cells as they are, and the effect runs again because its dependency
  \<^verbatim>\<open>programId\<close> changed (line 187).
\<close>

definition route_changes :: "string \<Rightarrow> string \<Rightarrow> details_state \<Rightarrow> details_state" where
  "route_changes BACKEND_URL pid s =
     (if pid = programId s then s
      else s\<lparr>location := ''/program/'' @ segment_of_param pid,
             location_search := [], location_hash := [], programId := pid,
             requests := requests s @ [Get (API BACKEND_URL @ ''/programs/'' @ pid)]\<rparr>)"

text \<open>
  \<^verbatim>\<open>fetchProgram\<close> after its \<^verbatim>\<open>await\<close> (lines 192 to 197). The data of a fulfilled
  response is a Program record, as the backend's interface has it.
\<close>

fun fetchProgram_resume :: "program settled \<Rightarrow> details_state \<Rightarrow> details_state" where
  "fetchProgram_resume (Fulfilled data) s = s\<lparr>program := Some data, loading_details := False\<rparr>"
| "fetchProgram_resume Rejected s =
     s\<lparr>toasts := toasts s @ [ToastError ''Failed to load program details''],
       loading_details := False\<rparr>"

text \<open>
  Lines 225 to 243:
  \<^verbatim>\<open>gradients[(parseInt(program.name.replace('Prg', '')) - 1) % gradients.length]\<close>.
\<close>

definition banner_gradient :: "program \<Rightarrow> string option" where
  "banner_gradient p =
     (let programIndex = js_minus_one (parseInt (replace_first ''Prg'' [] (prog_name p)))
      in js_get gradients (js_rem programIndex (length gradients)))"

text \<open>
  What the detail page shows (lines 245 to 315). \<open>page_created\<close> is the string handed
  to \<^verbatim>\<open>new Date\<close>; the text on the page is the host's \<^verbatim>\<open>toLocaleDateString\<close> of that
  date. \<open>page_back\<close> is the path the button of line 251 navigates to.
\<close>

record details_page =
  page_gradient :: "string option"
  page_name :: string
  page_title :: string
  page_description :: string
  page_id :: string
  page_created :: string
  page_back :: string

text \<open>
  The three renderings: the spinner (line 200), the not-found state with the path its
  button navigates to (line 211), and the page.
\<close>

datatype details_view = LoadingDetails | NotFound string | Details details_page

definition ProgramDetails_render :: "details_state \<Rightarrow> details_view" where
  "ProgramDetails_render s =
     (if loading_details s then LoadingDetails
      else case program s of
        None \<Rightarrow> NotFound ''/''
      | Some p \<Rightarrow>
          Details \<lparr>page_gradient = banner_gradient p,
                   page_name = prog_name p,
                   page_title = prog_title p,
                   page_description = prog_description p,
                   page_id = prog_id p,
                   page_created = prog_created_at p,
                   page_back = ''/''\<rparr>)"

text \<open>A click on the button \<^verbatim>\<open>Back to Programs\<close> of whichever rendering has one.\<close>

definition click_back :: "details_state \<Rightarrow> details_state" where
  "click_back s =
     (case ProgramDetails_render s of
        LoadingDetails \<Rightarrow> s
      | NotFound path \<Rightarrow> navigate path s
      | Details page \<Rightarrow> navigate (page_back page) s)"

text \<open>The events of one mounted instance, and a run of them from the mount.\<close>

datatype details_event = ProgramSettles "program settled" | RouteChanges string

fun details_step :: "string \<Rightarrow> details_state \<Rightarrow> details_event \<Rightarrow> details_state" where
  "details_step BACKEND_URL s (ProgramSettles r) = fetchProgram_resume r s"
| "details_step BACKEND_URL s (RouteChanges pid) = route_changes BACKEND_URL pid s"

definition details_run :: "string \<Rightarrow> string \<Rightarrow> details_event list \<Rightarrow> details_state" where
  "details_run BACKEND_URL pid evs =
     foldl (details_step BACKEND_URL) (ProgramDetails_mount BACKEND_URL pid) evs"

section \<open>The example of the specification\<close>

text \<open>The backend of the example scenario, with a second program beside \<open>p1\<close>.\<close>

definition example_base :: string where
  "example_base = ''http://localhost:8001''"

definition example_p1 :: program where
  "example_p1 =
     \<lparr>prog_id = ''p1'', prog_name = ''Prg1'', prog_title = ''Alpha'',
      prog_description = ''...'', prog_created_at = ''2024-01-01T00:00:00Z''\<rparr>"

definition example_p2 :: program where
  "example_p2 =
     \<lparr>prog_id = ''p2'', prog_name = ''Prg2'', prog_title = ''Beta'',
      prog_description = ''...'', prog_created_at = ''2024-01-02T00:00:00Z''\<rparr>"


text \<open>The grid screen once the list request has fulfilled with the two programs.\<close>

definition example_grid :: selection_state where
  "example_grid = selection_run example_base [ProgramsSettle (Fulfilled [example_p1, example_p2])]"

text \<open>The same screen after a click on the card of \<open>p1\<close>, its request still in flight.\<close>

definition example_pending :: selection_state where
  "example_pending =
     selection_run example_base
       [ProgramsSettle (Fulfilled [example_p1, example_p2]), CardClicked 1700000000000 0]"

section \<open>The selection request\<close>

lemma render_grid_length:
  "ProgramSelection_render s = Grid cards \<Longrightarrow> length cards = length (programs s)"
  by (auto simp: ProgramSelection_render_def split: if_splits)

lemma render_grid_onClick:
  assumes "ProgramSelection_render s = Grid cards" and "i < length (programs s)"
  shows "onClick (cards ! i) = programs s ! i"
  using assms by (auto simp: ProgramSelection_render_def render_card_def Let_def split: if_splits)

lemma click_card_eq:
  assumes "\<not> loading s" and "i < length (programs s)"
  shows "click_card b now i s = handleProgramSelect_call b now (programs s ! i) s"
proof -
  obtain cards where c: "ProgramSelection_render s = Grid cards"
    using assms(1) by (simp add: ProgramSelection_render_def)
  have "length cards = length (programs s)" using c by (rule render_grid_length)
  moreover have "onClick (cards ! i) = programs s ! i" using c assms(2) by (rule render_grid_onClick)
  ultimately show ?thesis using c assms(2) by (simp add: click_card_def)
qed

text \<open>
  C1. For every program \<open>P\<close> on the rendered grid, a click on its card sends exactly one
  request, and it is the POST to \<open>{base}/api/select-program\<close> whose body has
  \<open>program_id = P.id\<close>, \<open>program_name = P.name\<close> and as \<open>user_session\<close> the text
  \<open>session_\<close> followed by the decimal digits of the current time.
\<close>

theorem click_sends_one_selection_request:
  assumes "\<not> loading s" and "i < length (programs s)" and "P = programs s ! i"
  shows "requests (click_card base now i s) =
           requests s @
             [Post (base @ ''/api/select-program'')
                \<lparr>program_id = prog_id P, program_name = prog_name P,
                 user_session = ''session_'' @ show_int now\<rparr>]"
  using assms by (simp add: click_card_eq handleProgramSelect_call_def API_def)

lemma example_grid_cells:
  "\<not> loading example_grid"
  "programs example_grid = [example_p1, example_p2]"
  "selectedProgram example_grid = None"
  "pending example_grid = []"
  "timers example_grid = []"
  "toasts example_grid = []"
  "location example_grid = ''/''"
  "requests example_grid = [Get ''http://localhost:8001/api/programs'']"
  by (simp_all add: example_grid_def selection_run_def ProgramSelection_mount_def API_def
      example_base_def)

theorem click_sends_one_selection_request_witness:
  "\<not> loading example_grid \<and> (0::nat) < length (programs example_grid) \<and>
   example_p1 = programs example_grid ! 0 \<and>
   requests (click_card example_base 1700000000000 0 example_grid) =
     [Get ''http://localhost:8001/api/programs'',
      Post ''http://localhost:8001/api/select-program''
        \<lparr>program_id = ''p1'', program_name = ''Prg1'',
         user_session = ''session_1700000000000''\<rparr>]"
  using click_sends_one_selection_request [of example_grid 0 example_p1 example_base 1700000000000]
  by (simp add: example_grid_cells example_base_def example_p1_def show_int_def
      show_nat.simps digit_char_def)

section \<open>The outcome of the selection request\<close>

lemma example_pending_step:
  "example_pending = click_card example_base 1700000000000 0 example_grid"
  by (simp add: example_pending_def example_grid_def selection_run_def)

lemma example_pending_cells:
  "\<not> loading example_pending"
  "programs example_pending = [example_p1, example_p2]"
  "selectedProgram example_pending = Some example_p1"
  "pending example_pending = [example_p1]"
  "timers example_pending = []"
  "toasts example_pending = []"
  "location example_pending = ''/''"
  by (simp_all add: example_pending_step click_card_eq example_grid_cells
      handleProgramSelect_call_def)

lemma selected_keys_None:
  "selectedProgram s = None \<Longrightarrow> selected_keys s = []"
  by (simp add: selected_keys_def ProgramSelection_render_def render_card_def Let_def
      filter_map comp_def)

lemma root_address: "browser_location (createPath (parsePath ''/'')) = (''/'', [], [])"
  by (simp add: parsePath_def browser_location_def url_input_def c0_control_or_space_def
      tab_or_newline_def end_segment_def is_double_dot_def is_single_dot_def percent_encode_def)






lemma address_examples:
  "browser_location (createPath (parsePath ''/program/a?b'')) = (''/program/a'', ''?b'', [])"
  "browser_location (createPath (parsePath ''/program/a#b'')) = (''/program/a'', [], ''#b'')"
  "browser_location (createPath (parsePath ''/program/a b'')) = (''/program/a%20b'', [], [])"
  "browser_location (createPath (parsePath ''/program/a/b'')) = (''/program/a/b'', [], [])"
  by (simp_all add: parsePath_def browser_location_def url_input_def c0_control_or_space_def
      tab_or_newline_def path_separator_def path_set_def query_set_def special_query_set_def
      fragment_set_def c0_control_set_def end_segment_def is_double_dot_def is_single_dot_def
      percent_encode_def utf8_percent_encode_def percent_byte_def hex_char_def)




text \<open>
  C3. When the selection request for \<open>P\<close> fails, the error notification is shown, no
  program is selected any more and no card of the grid shows as selected; no callback is
  scheduled and the router stays where it is.
\<close>

theorem selection_failure_notifies_and_reverts:
  assumes "k < length (pending s)" and "pending s ! k = P"
  shows "toasts (post_settles k Rejected s) = toasts s @ [ToastError ''Failed to select program''] \<and>
         selectedProgram (post_settles k Rejected s) = None \<and>
         selected_keys (post_settles k Rejected s) = [] \<and>
         timers (post_settles k Rejected s) = timers s \<and>
         location (post_settles k Rejected s) = location s"
  using assms by (simp add: post_settles_def selected_keys_None)

theorem selection_failure_notifies_and_reverts_witness:
  "(0::nat) < length (pending example_pending) \<and> pending example_pending ! 0 = example_p1 \<and>
   selectedProgram example_pending = Some example_p1 \<and>
   toasts (post_settles 0 Rejected example_pending) = [ToastError ''Failed to select program''] \<and>
   selectedProgram (post_settles 0 Rejected example_pending) = None \<and>
   selected_keys (post_settles 0 Rejected example_pending) = [] \<and>
   timers (post_settles 0 Rejected example_pending) = [] \<and>
   location (post_settles 0 Rejected example_pending) = ''/''"
  using selection_failure_notifies_and_reverts [of 0 example_pending example_p1]
  by (simp add: example_pending_cells)

section \<open>The gradient of a card\<close>

lemma findIndex_distinct:
  "distinct (map f xs) \<Longrightarrow> i < length xs \<Longrightarrow> findIndex (\<lambda>p. f p = f (xs ! i)) xs = int i"
proof (induction xs arbitrary: i)
  case Nil
  then show ?case by simp
next
  case (Cons x xs)
  show ?case
  proof (cases i)
    case 0
    then show ?thesis by simp
  next
    case (Suc j)
    with Cons.prems have j: "j < length xs" and d: "distinct (map f xs)" and nx: "f x \<notin> f ` set xs"
      by auto
    have "f x \<noteq> f (xs ! j)" using nx j by (metis imageI nth_mem)
    moreover have "findIndex (\<lambda>p. f p = f (xs ! j)) xs = int j" using Cons.IH [OF d j] .
    ultimately show ?thesis using Suc by (simp add: Let_def)
  qed
qed

lemma length_gradients: "length gradients = 15"
  by (simp add: gradients_def)

lemma palette_lookup:
  "js_get gradients (js_rem (Num (int i)) (length gradients)) = Some (gradients ! (i mod 15))"
proof -
  have "sgn (int i) * (\<bar>int i\<bar> mod 15) = int (i mod 15)"
    by (cases "i = 0") (simp_all add: zmod_int)
  then show ?thesis by (simp add: length_gradients)
qed

lemma card_gradient:
  assumes "distinct (map prog_id progs)" and "i < length progs"
  shows "gradientClass (render_card progs sel (progs ! i)) = Some (gradients ! (i mod 15))"
  using findIndex_distinct [OF assms]
  by (simp add: render_card_def Let_def palette_lookup del: js_rem.simps js_get.simps)

lemma render_grid_cards:
  "ProgramSelection_render s = Grid cards \<Longrightarrow>
   cards = map (render_card (programs s) (selectedProgram s)) (programs s)"
  by (simp add: ProgramSelection_render_def split: if_splits)

text \<open>
  C5. When the identifiers of the list are unique, the card at position \<open>i\<close> of the grid
  gets the palette entry at index \<open>i\<close> modulo the palette length; the gradients of a
  grid are therefore fixed by the number of programs alone, whatever is selected and
  however often the grid is rendered.
\<close>

theorem grid_gradient_by_position:
  assumes "ProgramSelection_render s = Grid cards"
    and "distinct (map prog_id (programs s))"
    and "i < length cards"
  shows "gradientClass (cards ! i) = Some (gradients ! (i mod length gradients)) \<and>
         map gradientClass cards =
           map (\<lambda>j. Some (gradients ! (j mod length gradients))) [0..<length (programs s)]"
proof -
  have cs: "cards = map (render_card (programs s) (selectedProgram s)) (programs s)"
    using assms(1) by (rule render_grid_cards)
  have at: "gradientClass (cards ! j) = Some (gradients ! (j mod length gradients))"
    if "j < length (programs s)" for j
    using that by (simp add: cs card_gradient [OF assms(2)] length_gradients)
  have "map gradientClass cards =
          map (\<lambda>j. Some (gradients ! (j mod length gradients))) [0..<length (programs s)]"
  proof (rule nth_equalityI)
    show "length (map gradientClass cards) =
          length (map (\<lambda>j. Some (gradients ! (j mod length gradients))) [0..<length (programs s)])"
      by (simp add: cs)
  next
    fix j assume "j < length (map gradientClass cards)"
    then have j: "j < length (programs s)" by (simp add: cs)
    have "j < length cards" using j by (simp add: cs)
    then show "map gradientClass cards ! j =
          map (\<lambda>j. Some (gradients ! (j mod length gradients))) [0..<length (programs s)] ! j"
      using j at [OF j] by simp
  qed
  moreover have "i < length (programs s)" using assms(3) by (simp add: cs)
  ultimately show ?thesis using at by simp
qed

theorem grid_gradient_by_position_witness:
  "ProgramSelection_render example_pending =
     Grid (map (render_card [example_p1, example_p2] (Some example_p1)) [example_p1, example_p2]) \<and>
   distinct (map prog_id (programs example_pending)) \<and>
   gradientClass
     (map (render_card [example_p1, example_p2] (Some example_p1)) [example_p1, example_p2] ! 1) =
     Some ''from-teal-400 to-cyan-500''"
proof -
  have r: "ProgramSelection_render example_pending =
     Grid (map (render_card [example_p1, example_p2] (Some example_p1)) [example_p1, example_p2])"
    by (simp add: ProgramSelection_render_def example_pending_cells)
  have d: "distinct (map prog_id (programs example_pending))"
    by (simp add: example_pending_cells example_p1_def example_p2_def)
  have "gradients ! (1 mod length gradients) = ''from-teal-400 to-cyan-500''"
    by (simp add: gradients_def)
  then show ?thesis
    using r d grid_gradient_by_position [OF r d, of 1] by simp
qed

section \<open>The provisional selection\<close>

lemma step_selected_listed:
  assumes "loading s \<longrightarrow> selectedProgram s = None"
    and "\<forall>p. selectedProgram s = Some p \<longrightarrow> p \<in> set (programs s)"
  shows "(loading (selection_step b s e) \<longrightarrow> selectedProgram (selection_step b s e) = None) \<and>
         (\<forall>p. selectedProgram (selection_step b s e) = Some p \<longrightarrow>
            p \<in> set (programs (selection_step b s e)))"
proof (cases e)
  case (ProgramsSettle r)
  then show ?thesis using assms by (cases r) simp_all
next
  case (CardClicked now i)
  show ?thesis
  proof (cases "\<not> loading s \<and> i < length (programs s)")
    case True
    then show ?thesis using CardClicked by (simp add: click_card_eq handleProgramSelect_call_def)
  next
    case False
    then have "click_card b now i s = s"
      by (auto simp: click_card_def ProgramSelection_render_def)
    then show ?thesis using CardClicked assms by simp
  qed
next
  case (SelectSettles k r)
  then show ?thesis using assms by (cases r) (auto simp: post_settles_def)
next
  case (TimerFires k)
  then show ?thesis using assms by (simp add: timer_fires_def navigate_def split: prod.split)
qed

lemma run_selected_listed:
  "(loading (selection_run b evs) \<longrightarrow> selectedProgram (selection_run b evs) = None) \<and>
   (\<forall>p. selectedProgram (selection_run b evs) = Some p \<longrightarrow>
      p \<in> set (programs (selection_run b evs)))"
proof (induction evs rule: rev_induct)
  case Nil
  show ?case by (simp add: selection_run_def ProgramSelection_mount_def)
next
  case (snoc e evs)
  have "selection_run b (evs @ [e]) = selection_step b (selection_run b evs) e"
    by (simp add: selection_run_def)
  then show ?case using step_selected_listed [of "selection_run b evs" b e] snoc.IH by simp
qed

lemma filter_unique_key:
  "distinct (map f xs) \<Longrightarrow> p \<in> set xs \<Longrightarrow> map f (filter (\<lambda>x. f p = f x) xs) = [f p]"
proof (induction xs)
  case Nil
  then show ?case by simp
next
  case (Cons x xs)
  show ?case
  proof (cases "f p = f x")
    case True
    with Cons.prems have "\<forall>y\<in>set xs. f p \<noteq> f y" by auto
    then have "filter (\<lambda>x. f p = f x) xs = []" by (simp add: filter_empty_conv)
    then show ?thesis using True by simp
  next
    case False
    with Cons.prems have "p \<in> set xs" and "distinct (map f xs)" by auto
    then show ?thesis using Cons.IH False by simp
  qed
qed

lemma selected_keys_Some:
  assumes "\<not> loading s" and "selectedProgram s = Some p" and "p \<in> set (programs s)"
    and "distinct (map prog_id (programs s))"
  shows "selected_keys s = [prog_id p]"
proof -
  have "selected_keys s = map prog_id (filter (\<lambda>x. prog_id p = prog_id x) (programs s))"
    using assms(1,2)
    by (simp add: selected_keys_def ProgramSelection_render_def render_card_def Let_def
        filter_map comp_def)
  then show ?thesis using filter_unique_key [OF assms(4,3)] by simp
qed

text \<open>
  C8. In every state the grid screen reaches by a run of events from its mount, with a
  list of unique identifiers, at
  most one card shows as selected: none when nothing is selected, and otherwise exactly
  the card of the selected program. A click on another card, also while an earlier
  request is still in flight, makes that card the only selected one.
\<close>

theorem one_provisional_selection:
  assumes "s = selection_run base evs" and "distinct (map prog_id (programs s))"
  shows "length (selected_keys s) \<le> 1 \<and>
         selected_keys s = (case selectedProgram s of None \<Rightarrow> [] | Some p \<Rightarrow> [prog_id p]) \<and>
         (\<not> loading s \<and> j < length (programs s) \<longrightarrow>
            selectedProgram (click_card base now j s) = Some (programs s ! j) \<and>
            selected_keys (click_card base now j s) = [prog_id (programs s ! j)])"
proof -
  have inv: "loading s \<longrightarrow> selectedProgram s = None"
    "\<forall>p. selectedProgram s = Some p \<longrightarrow> p \<in> set (programs s)"
    using run_selected_listed [of base evs] assms(1) by simp_all
  have keys: "selected_keys s = (case selectedProgram s of None \<Rightarrow> [] | Some p \<Rightarrow> [prog_id p])"
  proof (cases "selectedProgram s")
    case None
    then show ?thesis by (simp add: selected_keys_None)
  next
    case (Some p)
    then have "\<not> loading s" and "p \<in> set (programs s)" using inv by auto
    then show ?thesis using Some assms(2) by (simp add: selected_keys_Some)
  qed
  have "length (selected_keys s) \<le> 1" by (simp add: keys split: option.split)
  moreover have "selectedProgram (click_card base now j s) = Some (programs s ! j) \<and>
            selected_keys (click_card base now j s) = [prog_id (programs s ! j)]"
    if "\<not> loading s" and "j < length (programs s)"
  proof -
    let ?t = "click_card base now j s"
    have t: "?t = handleProgramSelect_call base now (programs s ! j) s"
      using that by (rule click_card_eq)
    have "selected_keys ?t = [prog_id (programs s ! j)]"
      by (rule selected_keys_Some)
        (use that assms(2) in \<open>simp_all add: t handleProgramSelect_call_def\<close>)
    then show ?thesis by (simp add: t handleProgramSelect_call_def)
  qed
  ultimately show ?thesis using keys by blast
qed

theorem one_provisional_selection_witness:
  "distinct (map prog_id (programs example_pending)) \<and>
   pending example_pending = [example_p1] \<and>
   selected_keys example_pending = [''p1''] \<and>
   \<not> loading example_pending \<and> (1::nat) < length (programs example_pending) \<and>
   selectedProgram (click_card example_base 1700000000500 1 example_pending) = Some example_p2 \<and>
   selected_keys (click_card example_base 1700000000500 1 example_pending) = [''p2'']"
proof -
  have d: "distinct (map prog_id (programs example_pending))"
    by (simp add: example_pending_cells example_p1_def example_p2_def)
  show ?thesis
    using one_provisional_selection [OF example_pending_def d, of 1 1700000000500] d
    by (simp add: example_pending_cells example_p1_def example_p2_def)
qed

section \<open>Clicking a selected card\<close>

text \<open>
  C10. A card that already shows as selected has its inner button disabled, but its
  click handler still passes the program to \<open>handleProgramSelect\<close>: every further
  click on the card sends one more selection request for the same program.
\<close>

theorem selected_card_click_sends_again:
  assumes "ProgramSelection_render s = Grid cards" and "i < length cards"
    and "selectedProgram s = Some (programs s ! i)"
  shows "isSelected (cards ! i) \<and> button_disabled (cards ! i) \<and>
         onClick (cards ! i) = programs s ! i \<and>
         requests (click_card base now i s) =
           requests s @
             [Post (base @ ''/api/select-program'')
                \<lparr>program_id = prog_id (programs s ! i), program_name = prog_name (programs s ! i),
                 user_session = ''session_'' @ show_int now\<rparr>] \<and>
         requests (click_card base now' i (click_card base now i s)) =
           requests s @
             [Post (base @ ''/api/select-program'')
                \<lparr>program_id = prog_id (programs s ! i), program_name = prog_name (programs s ! i),
                 user_session = ''session_'' @ show_int now\<rparr>,
              Post (base @ ''/api/select-program'')
                \<lparr>program_id = prog_id (programs s ! i), program_name = prog_name (programs s ! i),
                 user_session = ''session_'' @ show_int now'\<rparr>]"
proof -
  have cs: "cards = map (render_card (programs s) (selectedProgram s)) (programs s)"
    using assms(1) by (rule render_grid_cards)
  have l: "\<not> loading s" using assms(1) by (auto simp: ProgramSelection_render_def split: if_splits)
  have i: "i < length (programs s)" using assms(2) by (simp add: cs)
  let ?t = "click_card base now i s"
  have t: "?t = handleProgramSelect_call base now (programs s ! i) s"
    using l i by (rule click_card_eq)
  have lt: "\<not> loading ?t" and pt: "programs ?t = programs s"
    using l by (simp_all add: t handleProgramSelect_call_def)
  have t': "click_card base now' i ?t = handleProgramSelect_call base now' (programs s ! i) ?t"
    using click_card_eq [OF lt, of i base now'] i by (simp add: pt)
  have "isSelected (cards ! i) \<and> button_disabled (cards ! i) \<and> onClick (cards ! i) = programs s ! i"
    using i assms(3) by (simp add: cs render_card_def Let_def)
  moreover have "requests ?t =
           requests s @
             [Post (base @ ''/api/select-program'')
                \<lparr>program_id = prog_id (programs s ! i), program_name = prog_name (programs s ! i),
                 user_session = ''session_'' @ show_int now\<rparr>]"
    by (simp add: t handleProgramSelect_call_def API_def)
  moreover have "requests (click_card base now' i ?t) =
           requests ?t @
             [Post (base @ ''/api/select-program'')
                \<lparr>program_id = prog_id (programs s ! i), program_name = prog_name (programs s ! i),
                 user_session = ''session_'' @ show_int now'\<rparr>]"
    unfolding t' by (simp add: handleProgramSelect_call_def API_def)
  ultimately show ?thesis by simp
qed

theorem selected_card_click_sends_again_witness:
  "ProgramSelection_render example_pending =
     Grid (map (render_card [example_p1, example_p2] (Some example_p1)) [example_p1, example_p2]) \<and>
   selectedProgram example_pending = Some (programs example_pending ! 0) \<and>
   button_disabled
     (map (render_card [example_p1, example_p2] (Some example_p1)) [example_p1, example_p2] ! 0) \<and>
   requests (click_card example_base 1700000000500 0 example_pending) =
     [Get ''http://localhost:8001/api/programs'',
      Post ''http://localhost:8001/api/select-program''
        \<lparr>program_id = ''p1'', program_name = ''Prg1'',
         user_session = ''session_1700000000000''\<rparr>,
      Post ''http://localhost:8001/api/select-program''
        \<lparr>program_id = ''p1'', program_name = ''Prg1'',
         user_session = ''session_1700000000500''\<rparr>]"
proof -
  have r: "ProgramSelection_render example_pending =
     Grid (map (render_card [example_p1, example_p2] (Some example_p1)) [example_p1, example_p2])"
    by (simp add: ProgramSelection_render_def example_pending_cells)
  have sel: "selectedProgram example_pending = Some (programs example_pending ! 0)"
    by (simp add: example_pending_cells)
  have rq: "requests example_pending =
     [Get ''http://localhost:8001/api/programs'',
      Post ''http://localhost:8001/api/select-program''
        \<lparr>program_id = ''p1'', program_name = ''Prg1'',
         user_session = ''session_1700000000000''\<rparr>]"
    by (simp add: example_pending_step click_card_eq example_grid_cells handleProgramSelect_call_def
        API_def example_base_def example_p1_def show_int_def show_nat.simps digit_char_def)
  show ?thesis
    using r sel selected_card_click_sends_again [OF r _ sel, of example_base 1700000000500]
    by (simp add: rq example_pending_cells example_base_def example_p1_def show_int_def
        show_nat.simps digit_char_def)
qed

section \<open>The banner of the detail page\<close>

lemma dec_digit_code:
  "is_digit 10 c \<Longrightarrow> 48 \<le> (of_char c :: nat) \<and> (of_char c :: nat) \<le> 57"
  by (auto simp: is_digit_def digit_value_def Let_def split: if_splits)

lemma dec_digit_plain:
  assumes "is_digit 10 c"
  shows "\<not> is_white_space c" "c \<noteq> CHR ''-''" "c \<noteq> CHR ''+''" "c \<noteq> CHR ''x''" "c \<noteq> CHR ''X''"
  using dec_digit_code [OF assms] by (auto simp: is_white_space_def)

lemma parseInt_decimal:
  assumes "ds \<noteq> []" and "\<forall>c\<in>set ds. is_digit 10 c"
  shows "parseInt ds = to_double (int (digits_value 10 ds))"
proof -
  obtain c cs where ds: "ds = c # cs" using assms(1) by (cases ds) auto
  have c: "is_digit 10 c" using assms(2) ds by simp
  have nohex: "\<not> is_prefix ''0x'' ds" "\<not> is_prefix ''0X'' ds"
  proof -
    show "\<not> is_prefix ''0x'' ds"
    proof (cases cs)
      case Nil then show ?thesis by (simp add: ds)
    next
      case (Cons d es)
      then have "is_digit 10 d" using assms(2) ds by simp
      then show ?thesis using dec_digit_plain(4) by (auto simp: ds Cons)
    qed
    show "\<not> is_prefix ''0X'' ds"
    proof (cases cs)
      case Nil then show ?thesis by (simp add: ds)
    next
      case (Cons d es)
      then have "is_digit 10 d" using assms(2) ds by simp
      then show ?thesis using dec_digit_plain(5) by (auto simp: ds Cons)
    qed
  qed
  have tw: "takeWhile (is_digit 10) ds = ds" using assms(2) by (simp add: takeWhile_eq_all_conv)
  have dw: "dropWhile is_white_space ds = ds" using dec_digit_plain(1) [OF c] by (simp add: ds)
  have sg: "c \<noteq> CHR ''-''" "c \<noteq> CHR ''+''" using dec_digit_plain [OF c] by simp_all
  have neg: "(case ds of c # _ \<Rightarrow> c = CHR ''-'' | [] \<Rightarrow> False) = False"
    using sg by (simp add: ds)
  have s2: "(case ds of c # cs \<Rightarrow> (if c = CHR ''-'' \<or> c = CHR ''+'' then cs else ds) | [] \<Rightarrow> ds) = ds"
    using sg by (simp add: ds)
  show ?thesis
    unfolding parseInt_def dw Let_def neg s2
    using nohex assms(1) by (simp add: tw)
qed

lemma to_double_exact: "\<bar>n\<bar> < 2 ^ 53 \<Longrightarrow> to_double n = Num n"
  by (simp add: to_double_def Let_def nat_less_iff)

lemma replace_Prg: "replace_first ''Prg'' [] (''Prg'' @ ds) = ds"
  by simp



lemma banner_gradient_digits:
  assumes "prog_name p = ''Prg'' @ ds" and "ds \<noteq> []" and "\<forall>c\<in>set ds. is_digit 10 c"
    and "1 \<le> digits_value 10 ds" and "digits_value 10 ds < 2 ^ 53"
  shows "banner_gradient p = Some (gradients ! ((digits_value 10 ds - 1) mod 15))"
proof -
  let ?n = "digits_value 10 ds"
  have p: "parseInt ds = Num (int ?n)"
    using assms(5) by (simp add: parseInt_decimal [OF assms(2,3)] to_double_exact)
  have m: "js_minus_one (Num (int ?n)) = Num (int (?n - 1))"
    using assms(4,5) by (simp add: to_double_exact of_nat_diff)
  show ?thesis
    unfolding banner_gradient_def assms(1) replace_Prg p m Let_def palette_lookup
    by simp
qed




















text \<open>
  Above \<open>2 ^ 53\<close> the subtraction rounds: for \<open>n = 2 ^ 53 + 2\<close> the index is that of
  \<open>2 ^ 53\<close>, not of \<open>n - 1\<close>, and still inside the palette.
\<close>

lemma banner_gradient_beyond_exact:
  "parseInt (replace_first ''Prg'' [] ''Prg9007199254740994'') = Num 9007199254740994 \<and>
   js_minus_one (Num 9007199254740994) = Num 9007199254740992 \<and>
   banner_gradient
     \<lparr>prog_id = ''big'', prog_name = ''Prg9007199254740994'', prog_title = ''Big'',
      prog_description = ''...'', prog_created_at = ''2024-01-01T00:00:00Z''\<rparr> =
     Some ''from-cyan-400 to-blue-500''"
proof -
  have b: "bit_length 9007199254740994 = 54" "bit_length 9007199254740993 = 54"
    by (simp_all add: bit_length.simps)
  have p: "parseInt (replace_first ''Prg'' [] ''Prg9007199254740994'') = Num 9007199254740994"
    by (simp add: parseInt_def is_white_space_def is_digit_def digit_value_def digits_value_def
        to_double_def Let_def b)
  have m: "js_minus_one (Num 9007199254740994) = Num 9007199254740992"
    by (simp add: to_double_def Let_def b)
  show ?thesis
    using p m by (simp add: banner_gradient_def Let_def gradients_def)
qed

text \<open>The names the backend of the example uses: \<open>Prg\<close> and the decimal numeral of \<open>n\<close>.\<close>

lemma digit_value_digit_char: "d < 10 \<Longrightarrow> digit_value (digit_char d) = Some d"
proof -
  assume "d < 10"
  then have "d \<in> {0, 1, 2, 3, 4, 5, 6, 7, 8, 9}" by auto
  then show ?thesis by (auto simp: digit_char_def digit_value_def)
qed

lemma digits_value_snoc:
  "digits_value r (ds @ [c]) = digits_value r ds * r + the (digit_value c)"
  by (simp add: digits_value_def)

lemma show_nat_digits:
  "show_nat n \<noteq> [] \<and> (\<forall>c\<in>set (show_nat n). is_digit 10 c) \<and> digits_value 10 (show_nat n) = n"
proof (induction n rule: show_nat.induct)
  case (1 n)
  show ?case
  proof (cases "n < 10")
    case True
    then show ?thesis
      by (subst (1 2 3) show_nat.simps) (simp add: is_digit_def digit_value_digit_char digits_value_def)
  next
    case False
    have m: "n mod 10 < 10" by simp
    show ?thesis
      using False "1.IH" m
      by (subst (1 2 3) show_nat.simps)
        (simp add: is_digit_def digit_value_digit_char digits_value_snoc)
  qed
qed

lemma banner_gradient_Prg_numeral:
  assumes "prog_name p = ''Prg'' @ show_nat n" and "1 \<le> n" and "n < 2 ^ 53"
  shows "banner_gradient p = Some (gradients ! ((n - 1) mod 15))"
  using banner_gradient_digits [of p "show_nat n"] assms show_nat_digits [of n] by simp

section \<open>A failed fetch of the detail page\<close>

lemma step_keeps_loaded:
  "program s \<noteq> None \<Longrightarrow> program (details_step b s e) \<noteq> None"
proof (cases e)
  case (ProgramSettles r)
  assume "program s \<noteq> None"
  then show ?thesis using ProgramSettles by (cases r) simp_all
next
  case (RouteChanges pid)
  assume "program s \<noteq> None"
  then show ?thesis using RouteChanges by (simp add: route_changes_def)
qed

lemma run_keeps_loaded:
  "program s \<noteq> None \<Longrightarrow> program (foldl (details_step b) s evs) \<noteq> None"
proof (induction evs arbitrary: s)
  case Nil
  then show ?case by simp
next
  case (Cons e evs)
  have "program (details_step b s e) \<noteq> None" using Cons.prems by (rule step_keeps_loaded)
  then have "program (foldl (details_step b) (details_step b s e) evs) \<noteq> None" by (rule Cons.IH)
  then show ?case by simp
qed

lemma run_loaded:
  "ProgramSettles (Fulfilled p) \<in> set evs \<Longrightarrow> program (foldl (details_step b) s evs) \<noteq> None"
proof (induction evs arbitrary: s)
  case Nil
  then show ?case by simp
next
  case (Cons e evs)
  show ?case
  proof (cases "e = ProgramSettles (Fulfilled p)")
    case True
    then have "program (details_step b s e) \<noteq> None" by simp
    then show ?thesis by (simp add: run_keeps_loaded)
  next
    case False
    then have "ProgramSettles (Fulfilled p) \<in> set evs" using Cons.prems by simp
    then show ?thesis using Cons.IH by simp
  qed
qed

text \<open>
  C9. A failed fetch leaves the cell \<open>program\<close> as it is. After the first fetch of a
  mounted instance fails the not-found state shows. After a program has been loaded, a
  change of the route identifier followed by a failed fetch shows the page of that
  program as before. In every run of an instance, the not-found state shows only when no
  fetch of the run has fulfilled.
\<close>

theorem failed_fetch_keeps_program:
  "program (fetchProgram_resume Rejected s) = program s \<and>
   ProgramDetails_render (fetchProgram_resume Rejected (ProgramDetails_mount b pid)) = NotFound ''/'' \<and>
   ProgramDetails_render
     (fetchProgram_resume Rejected (route_changes b pid' (fetchProgram_resume (Fulfilled p) s))) =
     ProgramDetails_render (fetchProgram_resume (Fulfilled p) s) \<and>
   (\<exists>page. ProgramDetails_render (fetchProgram_resume (Fulfilled p) s) = Details page \<and>
      page_id page = prog_id p \<and> page_name page = prog_name p) \<and>
   (ProgramDetails_render (details_run b pid evs) = NotFound path \<longrightarrow>
      (\<forall>q. ProgramSettles (Fulfilled q) \<notin> set evs))"
proof -
  have "\<forall>q. ProgramSettles (Fulfilled q) \<notin> set evs"
    if nf: "ProgramDetails_render (details_run b pid evs) = NotFound path"
  proof (rule ccontr)
    assume "\<not> (\<forall>q. ProgramSettles (Fulfilled q) \<notin> set evs)"
    then obtain q where "ProgramSettles (Fulfilled q) \<in> set evs" by blast
    then have "program (details_run b pid evs) \<noteq> None"
      unfolding details_run_def by (rule run_loaded)
    then show False using nf by (auto simp: ProgramDetails_render_def split: if_splits)
  qed
  moreover have "ProgramDetails_render
     (fetchProgram_resume Rejected (route_changes b pid' (fetchProgram_resume (Fulfilled p) s))) =
     ProgramDetails_render (fetchProgram_resume (Fulfilled p) s)"
    by (simp add: ProgramDetails_render_def route_changes_def)
  ultimately show ?thesis
    by (simp add: ProgramDetails_render_def ProgramDetails_mount_def)
qed

theorem failed_fetch_keeps_program_witness:
  "ProgramDetails_render (details_run example_base ''p9'' [ProgramSettles Rejected]) = NotFound ''/'' \<and>
   (\<forall>q. ProgramSettles (Fulfilled q) \<notin> set [ProgramSettles Rejected])"
  using failed_fetch_keeps_program [of _ example_base "''p9''" _ _ "[ProgramSettles Rejected]" "''/''"]
  by (simp add: details_run_def ProgramDetails_render_def ProgramDetails_mount_def)

lemma first_fetch_failure_not_found:
  "ProgramDetails_render (fetchProgram_resume Rejected (ProgramDetails_mount b pid)) = NotFound ''/'' \<and>
   location (click_back (fetchProgram_resume Rejected (ProgramDetails_mount b pid))) = ''/'' \<and>
   toasts (fetchProgram_resume Rejected (ProgramDetails_mount b pid)) =
     [ToastError ''Failed to load program details'']"
  by (simp add: click_back_def ProgramDetails_render_def ProgramDetails_mount_def navigate_def
      root_address)

text \<open>
  C4. The claim holds for the first fetch of a mounted instance (lemma
  \<open>first_fetch_failure_not_found\<close>), but not for every identifier whose fetch fails:
  the instance at \<open>/program/p1\<close> has loaded \<open>p1\<close>, the router moves it to
  \<open>/program/p9\<close>, the fetch of \<open>p9\<close> fails, and the screen shows the page of \<open>p1\<close>
  at the route of \<open>p9\<close> instead of the not-found state.
\<close>

theorem refetch_failure_shows_previous_program:
  "ProgramDetails_render
     (details_run example_base ''p1''
        [ProgramSettles (Fulfilled example_p1), RouteChanges ''p9'', ProgramSettles Rejected]) =
     Details \<lparr>page_gradient = Some ''from-emerald-400 to-teal-500'',
              page_name = ''Prg1'', page_title = ''Alpha'', page_description = ''...'',
              page_id = ''p1'', page_created = ''2024-01-01T00:00:00Z'', page_back = ''/''\<rparr> \<and>
   location
     (details_run example_base ''p1''
        [ProgramSettles (Fulfilled example_p1), RouteChanges ''p9'', ProgramSettles Rejected]) =
     ''/program/p9''"
proof -
  have "parseInt ''1'' = Num 1"
    by (simp add: parseInt_def is_white_space_def is_digit_def digit_value_def digits_value_def
        to_double_def Let_def)
  then have "banner_gradient example_p1 = Some ''from-emerald-400 to-teal-500''"
    by (simp add: banner_gradient_def example_p1_def to_double_def Let_def gradients_def)
  moreover have "segment_of_param ''p9'' = ''p9''"
    by (simp add: segment_of_param_def percent_encode_def path_separator_def path_set_def
        query_set_def c0_control_set_def)
  ultimately show ?thesis
    by (simp add: details_run_def ProgramDetails_mount_def route_changes_def
        ProgramDetails_render_def)
      (simp add: example_p1_def)
qed

end
